theory Spec2Isabelle
  imports Complex_Main "HOL-Library.Sublist"
begin

section \<open>String primitives of the host language\<close>

text \<open>
  File names, MIME types, tags and folder names are \<^typ>\<open>string\<close>s. Case mapping is the
  ASCII one: \<open>A\<close>..\<open>Z\<close> go to \<open>a\<close>..\<open>z\<close>, every other character is kept.
\<close>

definition toLowerChar :: "char \<Rightarrow> char" where
  "toLowerChar c =
     (let n = (of_char c :: nat) in if 65 \<le> n \<and> n \<le> 90 then char_of (n + 32) else c)"

definition toLowerCase :: "string \<Rightarrow> string" where
  "toLowerCase s = map toLowerChar s"

text \<open>\<open>s.includes(t)\<close>: \<open>t\<close> occurs in \<open>s\<close> as a contiguous run of characters.\<close>

fun str_includes :: "string \<Rightarrow> string \<Rightarrow> bool" where
  "str_includes [] t = (t = [])"
| "str_includes (c # s) t = (prefix t (c # s) \<or> str_includes s t)"

text \<open>
  \<open>s.split(sep)\<close> for a one-character separator: the pieces between the separators, empty
  pieces kept; the empty string splits into one empty piece.
\<close>

fun split_str :: "char \<Rightarrow> string \<Rightarrow> string list" where
  "split_str sep [] = [[]]"
| "split_str sep (c # cs) =
     (if c = sep then [] # split_str sep cs
      else (case split_str sep cs of
              [] \<Rightarrow> [[c]]
            | w # ws \<Rightarrow> (c # w) # ws))"

text \<open>\<open>xs[0]\<close> and \<open>xs.pop()\<close>: \<open>undefined\<close> on an empty array is \<open>None\<close>.\<close>

fun first_elem :: "'a list \<Rightarrow> 'a option" where
  "first_elem [] = None"
| "first_elem (x # xs) = Some x"

fun pop :: "'a list \<Rightarrow> 'a option" where
  "pop [] = None"
| "pop [x] = Some x"
| "pop (x # y # xs) = pop (y # xs)"

text \<open>The character class \<open>[a-z0-9]\<close>.\<close>

definition lower_alnum :: "char \<Rightarrow> bool" where
  "lower_alnum c =
     (let n = (of_char c :: nat) in (97 \<le> n \<and> n \<le> 122) \<or> (48 \<le> n \<and> n \<le> 57))"

text \<open>\<open>s.replace(/[^a-z0-9]/g, ' ')\<close>.\<close>

definition replace_non_alnum :: "string \<Rightarrow> string" where
  "replace_non_alnum s = map (\<lambda>c. if lower_alnum c then c else CHR '' '') s"

section \<open>Tagging service (server/services/gemini.ts)\<close>

record FileTagging =
  tags :: "string list"
  suggestedFolderName :: "string option"
  suggestedFileName :: "string option"
  confidence :: rat

text \<open>
  The local variables \<open>tags\<close> and \<open>suggestedFolderName\<close> of \<open>generateFallbackTags\<close> are
  threaded as a pair; \<open>push\<close> appends tags, \<open>assign\<close> overwrites the folder suggestion.
\<close>

type_synonym fb_state = "string list \<times> string option"

definition push :: "string list \<Rightarrow> fb_state \<Rightarrow> fb_state" where
  "push ts s = (fst s @ ts, snd s)"

definition assign :: "string \<Rightarrow> fb_state \<Rightarrow> fb_state" where
  "assign folder s = (fst s, Some folder)"

definition document_block :: "string \<Rightarrow> string \<Rightarrow> fb_state \<Rightarrow> fb_state" where
  "document_block lowerName lowerType s =
     (if str_includes lowerType ''pdf'' \<or> str_includes lowerType ''doc'' then
        (let s = push [''document''] s in
         if str_includes lowerName ''resume'' \<or> str_includes lowerName ''cv'' then
           assign ''Resumes'' (push [''resume'', ''personal''] s)
         else if str_includes lowerName ''assignment'' \<or> str_includes lowerName ''homework'' then
           assign ''Assignments'' (push [''assignment'', ''work''] s)
         else if str_includes lowerName ''cover'' \<and> str_includes lowerName ''letter'' then
           assign ''Cover Letters'' (push [''work'', ''application''] s)
         else if str_includes lowerName ''job'' \<or> str_includes lowerName ''application'' then
           assign ''Job Applications'' (push [''work'', ''application''] s)
         else assign ''Documents'' s)
      else s)"

definition image_block :: "string \<Rightarrow> string \<Rightarrow> fb_state \<Rightarrow> fb_state" where
  "image_block lowerName lowerType s =
     (if str_includes lowerType ''image'' \<or> str_includes lowerType ''jpg''
         \<or> str_includes lowerType ''png'' then
        (let s = push [''image''] s in
         if str_includes lowerName ''photo'' \<or> str_includes lowerName ''pic'' then
           assign ''Photos'' (push [''photo''] s)
         else if str_includes lowerName ''screenshot'' then
           assign ''Screenshots'' (push [''screenshot''] s)
         else if str_includes lowerName ''wallpaper'' \<or> str_includes lowerName ''background'' then
           assign ''Wallpapers'' (push [''wallpaper''] s)
         else assign ''Images'' s)
      else s)"

definition spreadsheet_block :: "string \<Rightarrow> string \<Rightarrow> fb_state \<Rightarrow> fb_state" where
  "spreadsheet_block lowerName lowerType s =
     (if str_includes lowerType ''excel'' \<or> str_includes lowerType ''csv''
         \<or> str_includes lowerType ''spreadsheet'' then
        (let s = push [''spreadsheet'', ''data''] s in
         if str_includes lowerName ''customer'' \<or> str_includes lowerName ''client'' then
           assign ''Customer Data'' (push [''customer''] s)
         else if str_includes lowerName ''finance'' \<or> str_includes lowerName ''loan''
                 \<or> str_includes lowerName ''payment'' then
           assign ''Financial Data'' (push [''finance''] s)
         else assign ''Spreadsheets'' s)
      else s)"

definition video_block :: "string \<Rightarrow> string \<Rightarrow> fb_state \<Rightarrow> fb_state" where
  "video_block lowerName lowerType s =
     (if str_includes lowerType ''video'' \<or> str_includes lowerType ''mp4'' then
        assign ''Videos'' (push [''video''] s)
      else s)"

definition report_line :: "string \<Rightarrow> fb_state \<Rightarrow> fb_state" where
  "report_line lowerName s =
     (if str_includes lowerName ''report'' then push [''report''] s else s)"

definition invoice_block :: "string \<Rightarrow> fb_state \<Rightarrow> fb_state" where
  "invoice_block lowerName s =
     (if str_includes lowerName ''invoice'' \<or> str_includes lowerName ''receipt'' then
        assign ''Financial Documents'' (push [''finance''] s)
      else s)"

definition project_block :: "string \<Rightarrow> fb_state \<Rightarrow> fb_state" where
  "project_block lowerName s =
     (if str_includes lowerName ''project'' then
        assign ''Projects'' (push [''project''] s)
      else s)"

definition presentation_block :: "string \<Rightarrow> fb_state \<Rightarrow> fb_state" where
  "presentation_block lowerName s =
     (if str_includes lowerName ''presentation'' \<or> str_includes lowerName ''ppt'' then
        assign ''Presentations'' (push [''presentation''] s)
      else s)"

definition fallback_state :: "string \<Rightarrow> string \<Rightarrow> fb_state" where
  "fallback_state lowerName lowerType =
     (let s = ([], None);
          s = document_block lowerName lowerType s;
          s = image_block lowerName lowerType s;
          s = spreadsheet_block lowerName lowerType s;
          s = video_block lowerName lowerType s;
          s = report_line lowerName s;
          s = invoice_block lowerName s;
          s = project_block lowerName s;
          s = presentation_block lowerName s
      in s)"

definition generateFallbackTags :: "string \<Rightarrow> string \<Rightarrow> FileTagging" where
  "generateFallbackTags fileName fileType =
     (let lowerName = toLowerCase fileName;
          lowerType = toLowerCase fileType;
          s = fallback_state lowerName lowerType
      in \<lparr> tags = (if length (fst s) > 0 then fst s else [''uncategorized'']),
           suggestedFolderName = snd s,
           suggestedFileName = None,
           confidence = 7 / 10 \<rparr>)"


text \<open>
  The generative endpoint is outside the program. Its reply to the \<open>n\<close>-th request of a
  run is given by an oracle: \<open>Some data\<close> is a reply that parsed into a \<open>FileTagging\<close>,
  \<open>None\<close> is any failure of the primary path (network error, empty reply, unparsable
  reply), which the \<open>catch\<close> turns into the rule-based fallback. The optional content
  preview only changes the prompt and is left out.
\<close>

type_synonym gemini_oracle = "nat \<Rightarrow> string \<Rightarrow> string \<Rightarrow> FileTagging option"

definition generateFileTags :: "gemini_oracle \<Rightarrow> nat \<Rightarrow> string \<Rightarrow> string \<Rightarrow> FileTagging" where
  "generateFileTags ai n fileName fileType =
     (case ai n fileName fileType of
        Some data \<Rightarrow> data
      | None \<Rightarrow> generateFallbackTags fileName fileType)"

section \<open>Data model (shared/schema.ts) and data access layer (server/storage.ts)\<close>

record File =
  file_id :: string
  original_name :: string
  display_name :: string
  file_type :: string
  file_size :: int
  storage_path :: string
  file_tags :: "string list"
  ai_generated :: bool
  user_id :: string
  folder_id :: "string option"
  uploaded_at :: nat
  metadata :: "(string \<times> string) list"

record Folder =
  folder_ident :: string
  folder_name :: string
  parent_id :: "string option"
  folder_user_id :: string
  created_at :: nat
  is_ai_generated :: bool

text \<open>
  The hosted store: the two tables, each as the list of its rows in the order in which the
  \<open>select ... order by ... desc\<close> queries return them (newest first).
\<close>

record db =
  files :: "File list"
  folders :: "Folder list"

text \<open>
  What the outside world decides during one request: the replies of the generative
  endpoint, which calls to the store fail, and the identities and timestamps the store
  gives to new rows. The calls inside a loop are indexed by the iteration.
\<close>

record env =
  gemini :: gemini_oracle
  getFile_fails :: bool
  getAllFiles_fails :: bool
  getAllFolders_fails :: "nat \<Rightarrow> bool"
  createFolder_fails :: "nat \<Rightarrow> bool"
  updateFile_fails :: "nat \<Rightarrow> bool"
  uuid :: "nat \<Rightarrow> string"
  now :: "nat \<Rightarrow> nat"

datatype http_error = NotFound | ServerError

text \<open>\<open>if (userId) query = query.eq('user_id', userId)\<close>: an empty user id does not filter.\<close>

definition files_of_user :: "string \<Rightarrow> File list \<Rightarrow> File list" where
  "files_of_user userId rows =
     (if userId \<noteq> [] then filter (\<lambda>r. user_id r = userId) rows else rows)"

definition folders_of_user :: "string \<Rightarrow> Folder list \<Rightarrow> Folder list" where
  "folders_of_user userId rows =
     (if userId \<noteq> [] then filter (\<lambda>r. folder_user_id r = userId) rows else rows)"

text \<open>\<open>.single()\<close>: exactly one row, anything else is an error.\<close>

fun single :: "'a list \<Rightarrow> 'a option" where
  "single [x] = Some x"
| "single _ = None"

text \<open>
  The \<open>id\<close> columns are of type UUID (the repository's table definitions): the store
  compares an identity with the text of a query by value, reads a UUID whatever the case
  of its letters, and prints it in lower case. \<open>getFile\<close> is the call whose identity is
  the text of the request path, in the client's spelling; the other calls below pass on
  identities in the spelling the store returned them in.
\<close>

definition same_uuid :: "string \<Rightarrow> string \<Rightarrow> bool" where
  "same_uuid a b = (toLowerCase a = toLowerCase b)"

definition getFile :: "env \<Rightarrow> string \<Rightarrow> string \<Rightarrow> db \<Rightarrow> File option" where
  "getFile e ident userId d =
     (if getFile_fails e then None
      else single (files_of_user userId (filter (\<lambda>r. same_uuid (file_id r) ident) (files d))))"

definition getAllFiles :: "env \<Rightarrow> string \<Rightarrow> db \<Rightarrow> http_error + File list" where
  "getAllFiles e userId d =
     (if getAllFiles_fails e then Inl ServerError else Inr (files_of_user userId (files d)))"

definition getAllFolders :: "env \<Rightarrow> nat \<Rightarrow> string \<Rightarrow> db \<Rightarrow> http_error + Folder list" where
  "getAllFolders e n userId d =
     (if getAllFolders_fails e n then Inl ServerError
      else Inr (folders_of_user userId (folders d)))"

text \<open>
  \<open>Partial<InsertFile>\<close>, for the two fields the handlers below send. \<open>updateFile\<close> passes
  the object's keys to the store as they are. The key \<open>tags\<close> is a column. The key
  \<open>folderId\<close> of the organize handler is not (the column is \<open>folder_id\<close>): a store with
  the repository's table definitions rejects that update, which is the case
  \<open>updateFile_fails\<close> of the outside world; \<open>apply_updates\<close> gives the write the handler
  intends, for a store that accepts the key.
\<close>

record file_updates =
  set_folderId :: "string option"
  set_tags :: "string list option"

definition apply_updates :: "file_updates \<Rightarrow> File \<Rightarrow> File" where
  "apply_updates u r =
     (let r = (case set_folderId u of None \<Rightarrow> r | Some f \<Rightarrow> r\<lparr>folder_id := Some f\<rparr>)
      in (case set_tags u of None \<Rightarrow> r | Some ts \<Rightarrow> r\<lparr>file_tags := ts\<rparr>))"

definition update_target :: "string \<Rightarrow> string \<Rightarrow> File \<Rightarrow> bool" where
  "update_target ident userId r =
     (file_id r = ident \<and> (userId \<noteq> [] \<longrightarrow> user_id r = userId))"

text \<open>
  \<open>updateFile\<close> returns the updated row, or \<open>undefined\<close> on any error: a failed call, or
  a result that is not exactly one row. It never throws.
\<close>

definition updateFile ::
  "env \<Rightarrow> nat \<Rightarrow> string \<Rightarrow> file_updates \<Rightarrow> string \<Rightarrow> db \<Rightarrow> File option \<times> db" where
  "updateFile e n ident u userId d =
     (if updateFile_fails e n then (None, d)
      else (case single (filter (update_target ident userId) (files d)) of
              None \<Rightarrow> (None, d)
            | Some r \<Rightarrow>
                (Some (apply_updates u r),
                 d\<lparr>files := map (\<lambda>r. if update_target ident userId r
                                       then apply_updates u r else r) (files d)\<rparr>)))"

record InsertFolder =
  ins_name :: string
  ins_parentId :: "string option"
  ins_userId :: string
  ins_isAiGenerated :: "bool option"

text \<open>\<open>createFolder\<close> throws when the insert fails, and returns the new row otherwise.\<close>

definition createFolder :: "env \<Rightarrow> nat \<Rightarrow> InsertFolder \<Rightarrow> db \<Rightarrow> http_error + (Folder \<times> db)" where
  "createFolder e n insertFolder d =
     (if createFolder_fails e n then Inl ServerError
      else (let row = \<lparr> folder_ident = uuid e n,
                         folder_name = ins_name insertFolder,
                         parent_id = ins_parentId insertFolder,
                         folder_user_id = ins_userId insertFolder,
                         created_at = now e n,
                         is_ai_generated =
                           (case ins_isAiGenerated insertFolder of
                              Some b \<Rightarrow> b | None \<Rightarrow> False) \<rparr>
            in Inr (row, d\<lparr>folders := row # folders d\<rparr>)))"

section \<open>Similar-file matcher (the apply-to-similar handler)\<close>

definition mainType :: "string \<Rightarrow> string option" where
  "mainType t = map_option toLowerCase (first_elem (split_str CHR ''/'' t))"

definition extension :: "string \<Rightarrow> string option" where
  "extension name = map_option toLowerCase (pop (split_str CHR ''.'' name))"

definition nameKeywords :: "string \<Rightarrow> string list" where
  "nameKeywords name =
     filter (\<lambda>word. length word > 2)
       (split_str CHR '' '' (replace_non_alnum (toLowerCase name)))"

definition commonKeywords :: "string list \<Rightarrow> string list \<Rightarrow> string list" where
  "commonKeywords sourceKeywords fileKeywords =
     filter (\<lambda>keyword.
        list_ex (\<lambda>fKeyword.
            str_includes fKeyword keyword \<or> str_includes keyword fKeyword
            \<or> fKeyword = keyword) fileKeywords) sourceKeywords"

definition sameMainType :: "File \<Rightarrow> File \<Rightarrow> bool" where
  "sameMainType sourceFile file = (mainType (file_type sourceFile) = mainType (file_type file))"

definition sameExactType :: "File \<Rightarrow> File \<Rightarrow> bool" where
  "sameExactType sourceFile file = (file_type file = file_type sourceFile)"

definition sameExtension :: "File \<Rightarrow> File \<Rightarrow> bool" where
  "sameExtension sourceFile file =
     (extension (original_name sourceFile) = extension (original_name file))"

definition hasCommonKeywords :: "File \<Rightarrow> File \<Rightarrow> bool" where
  "hasCommonKeywords sourceFile file =
     (length (commonKeywords (nameKeywords (original_name sourceFile))
                (nameKeywords (original_name file))) > 0)"

definition isMatch :: "File \<Rightarrow> File \<Rightarrow> bool" where
  "isMatch sourceFile file =
     (sameExactType sourceFile file
      \<or> (sameMainType sourceFile file \<and> sameExtension sourceFile file)
      \<or> (sameExtension sourceFile file \<and> hasCommonKeywords sourceFile file))"

definition similarFiles :: "string \<Rightarrow> File \<Rightarrow> File list \<Rightarrow> File list" where
  "similarFiles ident sourceFile allFiles =
     filter (\<lambda>file. if file_id file = ident then False else isMatch sourceFile file) allFiles"

text \<open>
  The update loop: a file whose update returns nothing is skipped, the others are
  collected in order.
\<close>

fun apply_tags_loop ::
  "env \<Rightarrow> string \<Rightarrow> File \<Rightarrow> nat \<Rightarrow> File list \<Rightarrow> db \<Rightarrow> File list \<Rightarrow> File list \<times> db" where
  "apply_tags_loop e userId sourceFile n [] d updatedFiles = (updatedFiles, d)"
| "apply_tags_loop e userId sourceFile n (file # rest) d updatedFiles =
     (case updateFile e n (file_id file)
             \<lparr> set_folderId = None, set_tags = Some (file_tags sourceFile) \<rparr> userId d of
        (Some updatedFile, d') \<Rightarrow>
          apply_tags_loop e userId sourceFile (Suc n) rest d' (updatedFiles @ [updatedFile])
      | (None, d') \<Rightarrow>
          apply_tags_loop e userId sourceFile (Suc n) rest d' updatedFiles)"

record similar_response =
  sourceFile :: File
  updatedFiles :: "File list"
  count :: nat
  similarFilesFound :: nat

definition apply_to_similar ::
  "env \<Rightarrow> string \<Rightarrow> string \<Rightarrow> db \<Rightarrow> (http_error + similar_response) \<times> db" where
  "apply_to_similar e userId ident d =
     (case getFile e ident userId d of
        None \<Rightarrow> (Inl NotFound, d)
      | Some src \<Rightarrow>
          (case getAllFiles e userId d of
             Inl err \<Rightarrow> (Inl ServerError, d)
           | Inr allFiles \<Rightarrow>
               (let similar = similarFiles ident src allFiles;
                    (updated, d') = apply_tags_loop e userId src 0 similar d []
                in (Inr \<lparr> sourceFile = src,
                          updatedFiles = updated,
                          count = length updated,
                          similarFilesFound = length similar \<rparr>, d'))))"

section \<open>Auto-organizer (the organize-files handler)\<close>

text \<open>Truthiness of an optional string: present and not empty.\<close>

fun truthy :: "string option \<Rightarrow> bool" where
  "truthy None = False"
| "truthy (Some s) = (s \<noteq> [])"

record organizedCount =
  created :: nat
  moved :: nat

text \<open>
  One iteration of the loop over the files. The loop body has no \<open>try\<close> of its own: a
  throw (listing or creating folders) goes to the handler's \<open>catch\<close>, so it ends the loop,
  and it leaves the store as it was before the iteration. The schema check of the new
  folder's data is on a name and a user id that are strings, and succeeds. The count of
  moved files is incremented after \<open>updateFile\<close> whatever it returned.
\<close>

definition organize_file ::
  "env \<Rightarrow> string \<Rightarrow> nat \<Rightarrow> File \<Rightarrow> db \<times> organizedCount \<Rightarrow> http_error + (db \<times> organizedCount)" where
  "organize_file e userId n file s =
     (let d = fst s; c = snd s in
      if truthy (folder_id file) then Inr s
      else
        (let aiTagging = generateFileTags (gemini e) n (original_name file) (file_type file) in
         case suggestedFolderName aiTagging of
           None \<Rightarrow> Inr s
         | Some suggested \<Rightarrow>
             if suggested = [] then Inr s
             else
               (case getAllFolders e n userId d of
                  Inl err \<Rightarrow> Inl err
                | Inr allFolders \<Rightarrow>
                    (case find (\<lambda>folder. toLowerCase (folder_name folder) = toLowerCase suggested)
                            allFolders of
                       Some existingFolder \<Rightarrow>
                         (let d' = snd (updateFile e n (file_id file)
                                     \<lparr> set_folderId = Some (folder_ident existingFolder),
                                       set_tags = Some (tags aiTagging) \<rparr> userId d)
                          in Inr (d', c\<lparr>moved := moved c + 1\<rparr>))
                     | None \<Rightarrow>
                         (case createFolder e n
                                 \<lparr> ins_name = suggested, ins_parentId = None,
                                   ins_userId = userId, ins_isAiGenerated = Some True \<rparr> d of
                            Inl err \<Rightarrow> Inl err
                          | Inr (existingFolder, d1) \<Rightarrow>
                              (let c = c\<lparr>created := created c + 1\<rparr>;
                                   d' = snd (updateFile e n (file_id file)
                                          \<lparr> set_folderId = Some (folder_ident existingFolder),
                                            set_tags = Some (tags aiTagging) \<rparr> userId d1)
                               in Inr (d', c\<lparr>moved := moved c + 1\<rparr>)))))))"

fun organize_loop ::
  "env \<Rightarrow> string \<Rightarrow> nat \<Rightarrow> File list \<Rightarrow> db \<times> organizedCount
     \<Rightarrow> (db \<times> organizedCount) \<times> http_error option" where
  "organize_loop e userId n [] s = (s, None)"
| "organize_loop e userId n (file # rest) s =
     (case organize_file e userId n file s of
        Inl err \<Rightarrow> (s, Some err)
      | Inr s' \<Rightarrow> organize_loop e userId (Suc n) rest s')"

record organize_report =
  foldersCreated :: nat
  filesMoved :: nat

definition organize_files :: "env \<Rightarrow> string \<Rightarrow> db \<Rightarrow> (http_error + organize_report) \<times> db" where
  "organize_files e userId d =
     (case getAllFiles e userId d of
        Inl err \<Rightarrow> (Inl ServerError, d)
      | Inr fs \<Rightarrow>
          (case organize_loop e userId 0 fs (d, \<lparr> created = 0, moved = 0 \<rparr>) of
             ((d', c), None) \<Rightarrow>
               (Inr \<lparr> foldersCreated = created c, filesMoved = moved c \<rparr>, d')
           | ((d', c), Some err) \<Rightarrow> (Inl ServerError, d')))"


section \<open>The fallback rules as an ordered table\<close>

text \<open>
  The specification describes the fallback as an ordered table of substring rules: a rule
  fires on the lowercased name and type, is refined by substrings of the name, appends its
  tags and may suggest a folder; the tags of all firing rules are appended and the folder
  of the last firing folder-suggesting rule wins. This second definition follows those
  words, to be compared with \<open>generateFallbackTags\<close> above.
\<close>

record fb_rule =
  rule_matches :: "string \<Rightarrow> string \<Rightarrow> bool"
  rule_effect :: "string \<Rightarrow> string list \<times> string option"

definition document_rule :: fb_rule where
  "document_rule =
     \<lparr> rule_matches = (\<lambda>n t. str_includes t ''pdf'' \<or> str_includes t ''doc''),
       rule_effect = (\<lambda>n.
         if str_includes n ''resume'' \<or> str_includes n ''cv''
           then ([''document'', ''resume'', ''personal''], Some ''Resumes'')
         else if str_includes n ''assignment'' \<or> str_includes n ''homework''
           then ([''document'', ''assignment'', ''work''], Some ''Assignments'')
         else if str_includes n ''cover'' \<and> str_includes n ''letter''
           then ([''document'', ''work'', ''application''], Some ''Cover Letters'')
         else if str_includes n ''job'' \<or> str_includes n ''application''
           then ([''document'', ''work'', ''application''], Some ''Job Applications'')
         else ([''document''], Some ''Documents'')) \<rparr>"

definition image_rule :: fb_rule where
  "image_rule =
     \<lparr> rule_matches = (\<lambda>n t. str_includes t ''image'' \<or> str_includes t ''jpg''
                              \<or> str_includes t ''png''),
       rule_effect = (\<lambda>n.
         if str_includes n ''photo'' \<or> str_includes n ''pic''
           then ([''image'', ''photo''], Some ''Photos'')
         else if str_includes n ''screenshot''
           then ([''image'', ''screenshot''], Some ''Screenshots'')
         else if str_includes n ''wallpaper'' \<or> str_includes n ''background''
           then ([''image'', ''wallpaper''], Some ''Wallpapers'')
         else ([''image''], Some ''Images'')) \<rparr>"

definition spreadsheet_rule :: fb_rule where
  "spreadsheet_rule =
     \<lparr> rule_matches = (\<lambda>n t. str_includes t ''excel'' \<or> str_includes t ''csv''
                              \<or> str_includes t ''spreadsheet''),
       rule_effect = (\<lambda>n.
         if str_includes n ''customer'' \<or> str_includes n ''client''
           then ([''spreadsheet'', ''data'', ''customer''], Some ''Customer Data'')
         else if str_includes n ''finance'' \<or> str_includes n ''loan''
                 \<or> str_includes n ''payment''
           then ([''spreadsheet'', ''data'', ''finance''], Some ''Financial Data'')
         else ([''spreadsheet'', ''data''], Some ''Spreadsheets'')) \<rparr>"

definition video_rule :: fb_rule where
  "video_rule =
     \<lparr> rule_matches = (\<lambda>n t. str_includes t ''video'' \<or> str_includes t ''mp4''),
       rule_effect = (\<lambda>n. ([''video''], Some ''Videos'')) \<rparr>"

definition report_rule :: fb_rule where
  "report_rule =
     \<lparr> rule_matches = (\<lambda>n t. str_includes n ''report''),
       rule_effect = (\<lambda>n. ([''report''], None)) \<rparr>"

definition invoice_rule :: fb_rule where
  "invoice_rule =
     \<lparr> rule_matches = (\<lambda>n t. str_includes n ''invoice'' \<or> str_includes n ''receipt''),
       rule_effect = (\<lambda>n. ([''finance''], Some ''Financial Documents'')) \<rparr>"

definition project_rule :: fb_rule where
  "project_rule =
     \<lparr> rule_matches = (\<lambda>n t. str_includes n ''project''),
       rule_effect = (\<lambda>n. ([''project''], Some ''Projects'')) \<rparr>"

definition presentation_rule :: fb_rule where
  "presentation_rule =
     \<lparr> rule_matches = (\<lambda>n t. str_includes n ''presentation'' \<or> str_includes n ''ppt''),
       rule_effect = (\<lambda>n. ([''presentation''], Some ''Presentations'')) \<rparr>"

definition spec_rule_table :: "fb_rule list" where
  "spec_rule_table =
     [document_rule, image_rule, spreadsheet_rule, video_rule,
      report_rule, invoice_rule, project_rule, presentation_rule]"

definition firing_rules :: "string \<Rightarrow> string \<Rightarrow> fb_rule list" where
  "firing_rules lowerName lowerType =
     filter (\<lambda>r. rule_matches r lowerName lowerType) spec_rule_table"

text \<open>All firing rules' tags, appended in table order.\<close>

definition spec_tags :: "string \<Rightarrow> string \<Rightarrow> string list" where
  "spec_tags lowerName lowerType =
     concat (map (\<lambda>r. fst (rule_effect r lowerName)) (firing_rules lowerName lowerType))"

text \<open>The folder of the last firing rule that suggests one, if any.\<close>

definition spec_folder :: "string \<Rightarrow> string \<Rightarrow> string option" where
  "spec_folder lowerName lowerType =
     (case rev (filter (\<lambda>r. snd (rule_effect r lowerName) \<noteq> None)
                  (firing_rules lowerName lowerType)) of
        [] \<Rightarrow> None
      | r # _ \<Rightarrow> snd (rule_effect r lowerName))"

text \<open>Running one rule, and a list of rules, on the tagger's two variables.\<close>

definition run_rule :: "string \<Rightarrow> string \<Rightarrow> fb_state \<Rightarrow> fb_rule \<Rightarrow> fb_state" where
  "run_rule n t s r =
     (if rule_matches r n t
      then (fst s @ fst (rule_effect r n),
            (case snd (rule_effect r n) of None \<Rightarrow> snd s | Some f \<Rightarrow> Some f))
      else s)"


section \<open>Example data\<close>

definition example_file :: "string \<Rightarrow> string \<Rightarrow> string \<Rightarrow> File" where
  "example_file ident name type =
     \<lparr> file_id = ident, original_name = name, display_name = name, file_type = type,
       file_size = 1024, storage_path = ''uploads/'' @ ident, file_tags = [],
       ai_generated = True, user_id = ''user-1'', folder_id = None, uploaded_at = 0,
       metadata = [] \<rparr>"

text \<open>An outside world in which the generative endpoint always fails and the store never does.\<close>

definition offline_env :: env where
  "offline_env =
     \<lparr> gemini = (\<lambda>n fileName fileType. None),
       getFile_fails = False,
       getAllFiles_fails = False,
       getAllFolders_fails = (\<lambda>n. False),
       createFolder_fails = (\<lambda>n. False),
       updateFile_fails = (\<lambda>n. False),
       uuid = (\<lambda>n. replicate (Suc n) CHR ''f''),
       now = (\<lambda>n. n) \<rparr>"

definition example_db :: db where
  "example_db =
     \<lparr> files =
         [(example_file ''1'' ''report_q1.pdf'' ''application/pdf'')
            \<lparr>file_tags := [''report'', ''quarterly'']\<rparr>,
          (example_file ''2'' ''report_q2.pdf'' ''application/x-pdf'')
            \<lparr>file_tags := [''draft'']\<rparr>,
          example_file ''3'' ''photo.jpg'' ''image/jpeg'',
          example_file ''4'' ''data.bin'' ''application/octet-stream''],
       folders = [] \<rparr>"

text \<open>A store whose files carry UUIDs, in the store's lower-case spelling.\<close>

definition uuid_db :: db where
  "uuid_db =
     \<lparr> files =
         [(example_file ''a0eebc99-9c0b-4ef8-bb6d-6bb9bd380a11'' ''report_q1.pdf''
             ''application/pdf'') \<lparr>file_tags := [''report'']\<rparr>,
          example_file ''b1ffcd00-0d1c-4fa9-8c7e-7cc0ce491b22'' ''photo.jpg'' ''image/jpeg''],
       folders = [] \<rparr>"

text \<open>
  An outside world in which the endpoint answers: it suggests the folders \<open>Invoices\<close>,
  \<open>INVOICES\<close> and \<open>Photos\<close> for the first three requests and none afterwards.
\<close>

definition scripted_env :: env where
  "scripted_env =
     offline_env
       \<lparr> gemini := (\<lambda>n fileName fileType.
           Some \<lparr> tags = [''ai''],
                  suggestedFolderName =
                    (if n = 0 then Some ''Invoices''
                     else if n = 1 then Some ''INVOICES''
                     else if n = 2 then Some ''Photos''
                     else None),
                  suggestedFileName = None,
                  confidence = 9 / 10 \<rparr>) \<rparr>"

text \<open>An outside world in which the endpoint fails and so does every update of a file.\<close>

definition update_failing_env :: env where
  "update_failing_env = offline_env \<lparr> updateFile_fails := (\<lambda>n. True) \<rparr>"

text \<open>An outside world in which the endpoint fails and the first folder cannot be created.\<close>

definition create_failing_env :: env where
  "create_failing_env = offline_env \<lparr> createFolder_fails := (\<lambda>n. n = 0) \<rparr>"

definition notes_db :: db where
  "notes_db = \<lparr> files = [example_file ''1'' ''notes.pdf'' ''application/pdf''], folders = [] \<rparr>"

section \<open>Notions used to state the properties\<close>

text \<open>The folders a run added to the store: the new rows at the front of the table.\<close>

definition created_folders :: "db \<Rightarrow> db \<Rightarrow> Folder list" where
  "created_folders d d' = take (length (folders d') - length (folders d)) (folders d')"

definition lower_names :: "Folder list \<Rightarrow> string list" where
  "lower_names fs = map (\<lambda>f. toLowerCase (folder_name f)) fs"

text \<open>
  The tagging result of the \<open>n\<close>-th iteration has no usable folder suggestion (absent or
  empty).
\<close>

definition no_suggestion :: "env \<Rightarrow> nat \<Rightarrow> File \<Rightarrow> bool" where
  "no_suggestion e n file =
     (\<not> truthy (suggestedFolderName
                  (generateFileTags (gemini e) n (original_name file) (file_type file))))"

text \<open>The rows of the files table with a given identity.\<close>

definition rows_with_id :: "string \<Rightarrow> db \<Rightarrow> File list" where
  "rows_with_id ident d = filter (\<lambda>r. file_id r = ident) (files d)"

section \<open>Properties of the tagging service\<close>

lemma str_includes_sublist: "str_includes s t = sublist t s"
  by (induction s) (auto simp: sublist_Cons_right)

subsection \<open>The fallback as a rule table\<close>

lemma run_rules_closed:
  "foldl (run_rule n t) s rs =
     (fst s @ concat (map (\<lambda>r. fst (rule_effect r n)) (filter (\<lambda>r. rule_matches r n t) rs)),
      (case rev (filter (\<lambda>r. snd (rule_effect r n) \<noteq> None)
                   (filter (\<lambda>r. rule_matches r n t) rs)) of
         [] \<Rightarrow> snd s
       | r # _ \<Rightarrow> snd (rule_effect r n)))"
proof (induction rs rule: rev_induct)
  case Nil
  then show ?case by simp
next
  case (snoc r rs)
  then show ?case
    by (auto simp: run_rule_def split: option.splits list.splits)
qed

lemma document_block_rule: "document_block n t s = run_rule n t s document_rule"
  by (cases s)
    (simp add: document_block_def document_rule_def run_rule_def push_def assign_def Let_def)

lemma image_block_rule: "image_block n t s = run_rule n t s image_rule"
  by (cases s)
    (simp add: image_block_def image_rule_def run_rule_def push_def assign_def Let_def)

lemma spreadsheet_block_rule: "spreadsheet_block n t s = run_rule n t s spreadsheet_rule"
  by (cases s)
    (simp add: spreadsheet_block_def spreadsheet_rule_def run_rule_def push_def assign_def Let_def)

lemma video_block_rule: "video_block n t s = run_rule n t s video_rule"
  by (cases s) (simp add: video_block_def video_rule_def run_rule_def push_def assign_def)

lemma report_line_rule: "report_line n s = run_rule n t s report_rule"
  by (cases s) (simp add: report_line_def report_rule_def run_rule_def push_def)

lemma invoice_block_rule: "invoice_block n s = run_rule n t s invoice_rule"
  by (cases s) (simp add: invoice_block_def invoice_rule_def run_rule_def push_def assign_def)

lemma project_block_rule: "project_block n s = run_rule n t s project_rule"
  by (cases s) (simp add: project_block_def project_rule_def run_rule_def push_def assign_def)

lemma presentation_block_rule: "presentation_block n s = run_rule n t s presentation_rule"
  by (cases s)
    (simp add: presentation_block_def presentation_rule_def run_rule_def push_def assign_def)

lemma fallback_state_table:
  "fallback_state n t = foldl (run_rule n t) ([], None) spec_rule_table"
  unfolding fallback_state_def spec_rule_table_def Let_def
  by (simp add: document_block_rule image_block_rule spreadsheet_block_rule video_block_rule
        report_line_rule[of n _ t] invoice_block_rule[of n _ t] project_block_rule[of n _ t]
        presentation_block_rule[of n _ t])

lemma fallback_state_fst: "fst (fallback_state n t) = spec_tags n t"
  by (simp add: fallback_state_table run_rules_closed spec_tags_def firing_rules_def)

lemma fallback_state_snd: "snd (fallback_state n t) = spec_folder n t"
proof -
  have "snd (([]::string list), (None::string option)) = None" by simp
  then show ?thesis
    unfolding fallback_state_table run_rules_closed spec_folder_def firing_rules_def snd_conv
    by simp
qed

text \<open>
  Claim C6. The fallback tagger computes what the ordered rule table prescribes: the
  suggested folder name is the one assigned by the last rule, in table order, among the
  firing rules that suggest a folder (each later firing rule overwrites the suggestion of
  the earlier ones, and there is no suggestion when no such rule fires), and the tag list
  is the tags of all firing rules appended in table order (or \<open>uncategorized\<close> when that
  list is empty).
\<close>

theorem fallback_last_folder_rule_wins:
  "suggestedFolderName (generateFallbackTags fileName fileType)
     = spec_folder (toLowerCase fileName) (toLowerCase fileType)
   \<and> tags (generateFallbackTags fileName fileType)
     = (if spec_tags (toLowerCase fileName) (toLowerCase fileType) = []
        then [''uncategorized'']
        else spec_tags (toLowerCase fileName) (toLowerCase fileType))"
  by (simp add: generateFallbackTags_def Let_def fallback_state_fst fallback_state_snd)

text \<open>
  An instance with three firing rules, two of which suggest a folder: a PDF named
  \<open>Project_Invoice.pdf\<close> fires the document rule (folder \<open>Documents\<close>), the invoice rule
  (folder \<open>Financial Documents\<close>) and the project rule (folder \<open>Projects\<close>); the last one
  wins and the three rules' tags are all there.
\<close>

theorem fallback_last_folder_rule_wins_witness:
  "suggestedFolderName (generateFallbackTags ''Project_Invoice.pdf'' ''application/pdf'')
     = Some ''Projects''
   \<and> tags (generateFallbackTags ''Project_Invoice.pdf'' ''application/pdf'')
     = [''document'', ''finance'', ''project'']"
proof -
  have a: "spec_folder (toLowerCase ''Project_Invoice.pdf'') (toLowerCase ''application/pdf'')
             = Some ''Projects''"
    by code_simp
  have b: "spec_tags (toLowerCase ''Project_Invoice.pdf'') (toLowerCase ''application/pdf'')
             = [''document'', ''finance'', ''project'']"
    by code_simp
  show ?thesis
    using fallback_last_folder_rule_wins[of "''Project_Invoice.pdf''" "''application/pdf''"]
    unfolding a b by simp
qed

subsection \<open>Scenarios\<close>

text \<open>
  Claim C8. When the generative endpoint fails on the request for \<open>resume_john.pdf\<close> of
  type \<open>application/pdf\<close>, the tagging result (the fallback's) has the tags \<open>document\<close>,
  \<open>resume\<close> and \<open>personal\<close> and the suggested folder \<open>Resumes\<close>.
\<close>

theorem fallback_resume_scenario:
  assumes "ai n ''resume_john.pdf'' ''application/pdf'' = None"
  shows "''document'' \<in> set (tags (generateFileTags ai n ''resume_john.pdf'' ''application/pdf''))
       \<and> ''resume'' \<in> set (tags (generateFileTags ai n ''resume_john.pdf'' ''application/pdf''))
       \<and> ''personal'' \<in> set (tags (generateFileTags ai n ''resume_john.pdf'' ''application/pdf''))
       \<and> suggestedFolderName (generateFileTags ai n ''resume_john.pdf'' ''application/pdf'')
           = Some ''Resumes''"
proof -
  have r: "generateFallbackTags ''resume_john.pdf'' ''application/pdf'' =
     \<lparr> tags = [''document'', ''resume'', ''personal''], suggestedFolderName = Some ''Resumes'',
       suggestedFileName = None, confidence = 7 / 10 \<rparr>"
    by code_simp
  show ?thesis by (simp add: generateFileTags_def assms r)
qed

theorem fallback_resume_scenario_witness:
  "gemini offline_env 0 ''resume_john.pdf'' ''application/pdf'' = None
   \<and> ''personal'' \<in> set (tags (generateFileTags (gemini offline_env) 0
                                 ''resume_john.pdf'' ''application/pdf''))
   \<and> suggestedFolderName (generateFileTags (gemini offline_env) 0
                             ''resume_john.pdf'' ''application/pdf'') = Some ''Resumes''"
proof -
  have h: "gemini offline_env 0 ''resume_john.pdf'' ''application/pdf'' = None"
    by (simp add: offline_env_def)
  show ?thesis
    using h fallback_resume_scenario[of "gemini offline_env" 0] by simp
qed

text \<open>
  Claim C10. The tag list of the fallback can hold the same tag twice: for a CSV file named
  \<open>loan_invoice.csv\<close> the spreadsheet rule's refinement appends \<open>finance\<close> and the invoice
  rule appends it again, so the result is a list with duplicates and not a set.
\<close>

theorem fallback_duplicate_tag:
  "tags (generateFallbackTags ''loan_invoice.csv'' ''text/csv'')
     = [''spreadsheet'', ''data'', ''finance'', ''finance'']
   \<and> \<not> distinct (tags (generateFallbackTags ''loan_invoice.csv'' ''text/csv''))"
proof -
  have r: "tags (generateFallbackTags ''loan_invoice.csv'' ''text/csv'')
             = [''spreadsheet'', ''data'', ''finance'', ''finance'']"
    by code_simp
  show ?thesis unfolding r by simp
qed

section \<open>Properties of the similar-file matcher\<close>

lemma commonKeywords_sym: "(commonKeywords a b = []) = (commonKeywords b a = [])"
  unfolding commonKeywords_def by (auto simp: filter_empty_conv list_ex_iff)

lemma hasCommonKeywords_sym: "hasCommonKeywords a b = hasCommonKeywords b a"
  unfolding hasCommonKeywords_def using commonKeywords_sym by auto

text \<open>
  Claim C2. The matching predicate is symmetric: for all files \<open>a\<close> and \<open>b\<close>, \<open>a\<close> matches
  \<open>b\<close> as a source exactly when \<open>b\<close> matches \<open>a\<close> as a source, where matching is the
  disjunction of equal MIME type, equal lowercased main type with equal lowercased
  extension, and equal extension with a shared keyword.
\<close>

theorem isMatch_symmetric: "isMatch a b = isMatch b a"
  unfolding isMatch_def sameExactType_def sameMainType_def sameExtension_def
  using hasCommonKeywords_sym[of a b] by auto


subsection \<open>The extension as a keyword\<close>

lemma split_str_not_Nil: "split_str sep s \<noteq> []"
  by (induction s) (auto split: list.splits)

lemma split_str_no_sep: "sep \<notin> set s \<Longrightarrow> split_str sep s = [s]"
  by (induction s) auto

lemma split_str_two: "sep \<in> set s \<Longrightarrow> \<exists>w x ws. split_str sep s = w # x # ws"
proof (induction s)
  case Nil
  then show ?case by simp
next
  case (Cons c cs)
  show ?case
  proof (cases "sep \<in> set cs")
    case True
    with Cons.IH obtain w x ws where "split_str sep cs = w # x # ws" by blast
    then show ?thesis by auto
  next
    case False
    with Cons.prems have "c = sep" by simp
    with False show ?thesis by (simp add: split_str_no_sep)
  qed
qed

lemma pop_split_Cons:
  "pop (split_str sep (c # cs)) =
     (if sep \<in> set cs then pop (split_str sep cs)
      else if c = sep then Some cs else Some (c # cs))"
proof (cases "sep \<in> set cs")
  case True
  then obtain w x ws where "split_str sep cs = w # x # ws"
    using split_str_two by blast
  with True show ?thesis by simp
next
  case False
  then show ?thesis by (simp add: split_str_no_sep)
qed

lemma pop_split_append:
  "sep \<notin> set e \<Longrightarrow> pop (split_str sep (pre @ sep # e)) = Some e"
proof (induction pre)
  case Nil
  then show ?case by (simp only: append_Nil pop_split_Cons) simp
next
  case (Cons c pre)
  then show ?case by (simp only: append_Cons pop_split_Cons) simp
qed

lemma pop_split_decomp:
  "pop (split_str sep s) = Some e \<Longrightarrow> sep \<notin> set e \<and> (s = e \<or> (\<exists>pre. s = pre @ sep # e))"
proof (induction s)
  case Nil
  then show ?case by simp
next
  case (Cons c cs)
  show ?case
  proof (cases "sep \<in> set cs")
    case True
    with Cons.prems have "pop (split_str sep cs) = Some e"
      by (simp only: pop_split_Cons if_True)
    with Cons.IH have "sep \<notin> set e" and "cs = e \<or> (\<exists>pre. cs = pre @ sep # e)" by auto
    with True obtain pre where "cs = pre @ sep # e" by auto
    then have "c # cs = (c # pre) @ sep # e" by simp
    with \<open>sep \<notin> set e\<close> show ?thesis by blast
  next
    case False
    show ?thesis
    proof (cases "c = sep")
      case True
      with False Cons.prems have "e = cs" by (simp only: pop_split_Cons) simp
      with False True have "c # cs = [] @ sep # e" by simp
      with False \<open>e = cs\<close> show ?thesis by blast
    next
      case c: False
      with False Cons.prems have "e = c # cs" by (simp only: pop_split_Cons) simp
      with False c show ?thesis by auto
    qed
  qed
qed

lemma pop_in_set: "pop xs = Some x \<Longrightarrow> x \<in> set xs"
  by (induction xs rule: pop.induct) auto

lemma lower_alnum_not_space: "\<not> lower_alnum (CHR '' '')"
  by (simp add: lower_alnum_def)

lemma lower_alnum_not_dot: "\<not> lower_alnum (CHR ''.'')"
  by (simp add: lower_alnum_def)

lemma toLowerChar_dot: "toLowerChar (CHR ''.'') = CHR ''.''"
  by (simp add: toLowerChar_def)

lemma replace_alnum_id: "list_all lower_alnum s \<Longrightarrow> replace_non_alnum s = s"
  by (induction s) (auto simp: replace_non_alnum_def)

lemma extension_is_keyword:
  assumes ext: "extension name = Some ext"
      and len: "3 \<le> length ext"
      and alnum: "list_all lower_alnum ext"
  shows "ext \<in> set (nameKeywords name)"
proof -
  from ext obtain e where e: "pop (split_str CHR ''.'' name) = Some e" and ee: "ext = toLowerCase e"
    by (auto simp: extension_def)
  from alnum have nosp: "CHR '' '' \<notin> set ext"
    using lower_alnum_not_space by (auto simp: list_all_iff)
  from pop_split_decomp[OF e] have "name = e \<or> (\<exists>pre. name = pre @ CHR ''.'' # e)" by simp
  then have "pop (split_str CHR '' '' (replace_non_alnum (toLowerCase name))) = Some ext"
  proof
    assume "name = e"
    then have "replace_non_alnum (toLowerCase name) = ext"
      using ee alnum by (simp add: replace_alnum_id)
    then show ?thesis using nosp by (simp add: split_str_no_sep)
  next
    assume "\<exists>pre. name = pre @ CHR ''.'' # e"
    then obtain pre where "name = pre @ CHR ''.'' # e" ..
    then have "replace_non_alnum (toLowerCase name)
                 = replace_non_alnum (toLowerCase pre) @ CHR '' '' # ext"
      using ee replace_alnum_id[OF alnum] lower_alnum_not_dot
      by (simp add: toLowerCase_def replace_non_alnum_def toLowerChar_dot)
    then show ?thesis using nosp by (simp add: pop_split_append)
  qed
  then have "ext \<in> set (split_str CHR '' '' (replace_non_alnum (toLowerCase name)))"
    by (rule pop_in_set)
  with len show ?thesis by (simp add: nameKeywords_def)
qed

lemma shared_keyword_common:
  "k \<in> set ks1 \<Longrightarrow> k \<in> set ks2 \<Longrightarrow> commonKeywords ks1 ks2 \<noteq> []"
  by (auto simp: commonKeywords_def filter_empty_conv list_ex_iff)

text \<open>
  Claim C5, as the code has it. Two files whose original names contain a dot and end in
  the same extension of length at least 3 share that extension as a keyword, and so
  satisfy clause (c) and match, provided the (lowercased) extension is made of the
  characters \<open>a\<close>..\<open>z\<close> and \<open>0\<close>..\<open>9\<close> only: tokenizing turns every other character into a
  space, which cuts the extension into shorter tokens.
\<close>

theorem same_alnum_extension_matches:
  assumes "CHR ''.'' \<in> set (original_name a)" and "CHR ''.'' \<in> set (original_name b)"
      and "extension (original_name a) = Some ext"
      and "extension (original_name b) = Some ext"
      and "3 \<le> length ext"
      and "list_all lower_alnum ext"
  shows "ext \<in> set (nameKeywords (original_name a))
       \<and> ext \<in> set (nameKeywords (original_name b))
       \<and> sameExtension a b \<and> hasCommonKeywords a b \<and> isMatch a b"
proof -
  have ka: "ext \<in> set (nameKeywords (original_name a))"
    using assms(3,5,6) by (rule extension_is_keyword)
  have kb: "ext \<in> set (nameKeywords (original_name b))"
    using assms(4,5,6) by (rule extension_is_keyword)
  have se: "sameExtension a b" using assms(3,4) by (simp add: sameExtension_def)
  have ck: "hasCommonKeywords a b"
    using shared_keyword_common[OF ka kb] by (simp add: hasCommonKeywords_def)
  from ka kb se ck show ?thesis by (simp add: isMatch_def)
qed

theorem same_alnum_extension_matches_witness:
  "extension (original_name (example_file ''1'' ''report_q1.pdf'' ''application/pdf''))
     = Some ''pdf''
   \<and> extension (original_name (example_file ''2'' ''Holiday.PDF'' ''image/scan''))
     = Some ''pdf''
   \<and> list_all lower_alnum ''pdf''
   \<and> isMatch (example_file ''1'' ''report_q1.pdf'' ''application/pdf'')
        (example_file ''2'' ''Holiday.PDF'' ''image/scan'')"
proof -
  have h1: "CHR ''.'' \<in> set (original_name
              (example_file ''1'' ''report_q1.pdf'' ''application/pdf''))"
    by code_simp
  have h2: "CHR ''.'' \<in> set (original_name (example_file ''2'' ''Holiday.PDF'' ''image/scan''))"
    by code_simp
  have h3: "extension (original_name (example_file ''1'' ''report_q1.pdf'' ''application/pdf''))
              = Some ''pdf''"
    by code_simp
  have h4: "extension (original_name (example_file ''2'' ''Holiday.PDF'' ''image/scan''))
              = Some ''pdf''"
    by code_simp
  have h5: "3 \<le> length ''pdf''" by simp
  have h6: "list_all lower_alnum ''pdf''" by code_simp
  from same_alnum_extension_matches[OF h1 h2 h3 h4 h5 h6] h3 h4 h6 show ?thesis by simp
qed

text \<open>
  The claim as stated fails: \<open>x.a-b\<close> and \<open>y.a-b\<close> both contain a dot and end in the
  extension \<open>a-b\<close> of length 3, but tokenizing cuts it at the hyphen, neither name has a
  keyword, and with unrelated MIME types the two files do not match.
\<close>

theorem same_extension_no_match_counterexample:
  "CHR ''.'' \<in> set (original_name (example_file ''1'' ''x.a-b'' ''text/plain''))
   \<and> CHR ''.'' \<in> set (original_name (example_file ''2'' ''y.a-b'' ''application/zip''))
   \<and> extension (original_name (example_file ''1'' ''x.a-b'' ''text/plain'')) = Some ''a-b''
   \<and> extension (original_name (example_file ''2'' ''y.a-b'' ''application/zip'')) = Some ''a-b''
   \<and> 3 \<le> length ''a-b''
   \<and> file_id (example_file ''1'' ''x.a-b'' ''text/plain'')
       \<noteq> file_id (example_file ''2'' ''y.a-b'' ''application/zip'')
   \<and> nameKeywords ''x.a-b'' = []
   \<and> \<not> hasCommonKeywords (example_file ''1'' ''x.a-b'' ''text/plain'')
          (example_file ''2'' ''y.a-b'' ''application/zip'')
   \<and> \<not> isMatch (example_file ''1'' ''x.a-b'' ''text/plain'')
          (example_file ''2'' ''y.a-b'' ''application/zip'')"
  by code_simp


subsection \<open>Applying the source's tags\<close>

lemma single_Some: "single xs = Some x \<Longrightarrow> xs = [x]"
  by (cases xs rule: single.cases) auto

lemma file_id_apply_updates: "file_id (apply_updates u r) = file_id r"
  by (simp add: apply_updates_def split: option.splits)

lemma file_tags_apply_updates: "set_tags u = Some ts \<Longrightarrow> file_tags (apply_updates u r) = ts"
  by (simp add: apply_updates_def split: option.splits)

lemma getFile_id: "getFile e ident userId d = Some f \<Longrightarrow> same_uuid (file_id f) ident"
proof -
  assume "getFile e ident userId d = Some f"
  then have "files_of_user userId (filter (\<lambda>r. same_uuid (file_id r) ident) (files d)) = [f]"
    by (auto simp: getFile_def split: if_splits dest: single_Some)
  then have "f \<in> set (files_of_user userId
                        (filter (\<lambda>r. same_uuid (file_id r) ident) (files d)))"
    by simp
  then show ?thesis by (auto simp: files_of_user_def split: if_splits)
qed

lemma updateFile_Some:
  assumes "updateFile e n ident u userId d = (Some r, d')"
  shows "file_id r = ident" and "set_tags u = Some ts \<Longrightarrow> file_tags r = ts"
proof -
  from assms obtain r0 where r0: "single (filter (update_target ident userId) (files d)) = Some r0"
    and r: "r = apply_updates u r0"
    by (auto simp: updateFile_def split: if_splits option.splits)
  from single_Some[OF r0] have "r0 \<in> set (filter (update_target ident userId) (files d))"
    by simp
  then have "file_id r0 = ident" by (simp add: update_target_def)
  with r show "file_id r = ident" by (simp add: file_id_apply_updates)
  show "set_tags u = Some ts \<Longrightarrow> file_tags r = ts"
    using r by (simp add: file_tags_apply_updates)
qed

lemma apply_tags_loop_updated:
  "set (fst (apply_tags_loop e userId src n fs d acc))
     \<subseteq> set acc \<union> {r. file_tags r = file_tags src \<and> file_id r \<in> file_id ` set fs}"
proof (induction fs arbitrary: n d acc)
  case Nil
  then show ?case by simp
next
  case (Cons f fs)
  obtain res d1 where u: "updateFile e n (file_id f)
      \<lparr> set_folderId = None, set_tags = Some (file_tags src) \<rparr> userId d = (res, d1)"
    by (cases "updateFile e n (file_id f)
      \<lparr> set_folderId = None, set_tags = Some (file_tags src) \<rparr> userId d") auto
  show ?case
  proof (cases res)
    case None
    with u Cons.IH[of "Suc n" d1 acc] show ?thesis by auto
  next
    case (Some r)
    with u have u': "updateFile e n (file_id f)
        \<lparr> set_folderId = None, set_tags = Some (file_tags src) \<rparr> userId d = (Some r, d1)"
      by simp
    have "file_id r = file_id f" by (rule updateFile_Some(1)[OF u'])
    moreover have "file_tags r = file_tags src" by (rule updateFile_Some(2)[OF u']) simp
    ultimately show ?thesis using u' Cons.IH[of "Suc n" d1 "acc @ [r]"] by auto
  qed
qed

lemma similarFiles_not_source: "f \<in> set (similarFiles ident src allFiles) \<Longrightarrow> file_id f \<noteq> ident"
  by (auto simp: similarFiles_def split: if_splits)

text \<open>A returned row is a row of the store after the update, and later updates keep it.\<close>

lemma updateFile_stored:
  assumes "updateFile e n ident u userId d = (Some r, d')"
  shows "r \<in> set (files d')"
proof -
  from assms obtain r0 where r0: "single (filter (update_target ident userId) (files d)) = Some r0"
    and r: "r = apply_updates u r0"
    and d': "d' = d\<lparr>files := map (\<lambda>r. if update_target ident userId r
                                       then apply_updates u r else r) (files d)\<rparr>"
    by (auto simp: updateFile_def split: if_splits option.splits)
  from single_Some[OF r0] have "r0 \<in> set (filter (update_target ident userId) (files d))"
    by simp
  then have "r0 \<in> set (files d)" and "update_target ident userId r0" by simp_all
  with r d' show ?thesis by (auto simp: image_iff)
qed

lemma apply_updates_same_tags:
  "file_tags x = ts \<Longrightarrow> apply_updates \<lparr> set_folderId = None, set_tags = Some ts \<rparr> x = x"
  by (simp add: apply_updates_def)

lemma updateFile_keeps_row:
  assumes "x \<in> set (files d)" and "apply_updates u x = x"
  shows "x \<in> set (files (snd (updateFile e n ident u userId d)))"
proof (cases "updateFile_fails e n")
  case True
  with assms(1) show ?thesis by (simp add: updateFile_def)
next
  case nofail: False
  show ?thesis
  proof (cases "single (filter (update_target ident userId) (files d))")
    case None
    with nofail assms(1) show ?thesis by (simp add: updateFile_def)
  next
    case (Some r)
    define h where "h = (\<lambda>r. if update_target ident userId r then apply_updates u r else r)"
    have "x = h x" using assms(2) by (simp add: h_def)
    with assms(1) have "x \<in> h ` set (files d)" by (rule rev_image_eqI)
    moreover from nofail Some
    have "files (snd (updateFile e n ident u userId d)) = map h (files d)"
      by (simp add: updateFile_def h_def)
    ultimately show ?thesis by simp
  qed
qed

lemma apply_tags_loop_stored:
  "apply_tags_loop e userId src n fs d acc = (upd, d') \<Longrightarrow>
   (\<And>r. r \<in> set acc \<Longrightarrow> r \<in> set (files d) \<and> file_tags r = file_tags src) \<Longrightarrow>
   r \<in> set upd \<Longrightarrow> r \<in> set (files d') \<and> file_tags r = file_tags src"
proof (induction fs arbitrary: n d acc)
  case Nil
  then show ?case by simp
next
  case (Cons f fs)
  let ?u = "\<lparr> set_folderId = None, set_tags = Some (file_tags src) \<rparr>"
  obtain res d1 where u: "updateFile e n (file_id f) ?u userId d = (res, d1)"
    by (cases "updateFile e n (file_id f) ?u userId d") auto
  have keep: "x \<in> set (files d1) \<and> file_tags x = file_tags src"
    if "x \<in> set acc" for x
  proof -
    from that Cons.prems(2) have x: "x \<in> set (files d)" and t: "file_tags x = file_tags src"
      by auto
    from t have "apply_updates ?u x = x" by (rule apply_updates_same_tags)
    with x have "x \<in> set (files (snd (updateFile e n (file_id f) ?u userId d)))"
      by (rule updateFile_keeps_row)
    with u t show ?thesis by simp
  qed
  show ?case
  proof (cases res)
    case None
    with u Cons.prems(1) have "apply_tags_loop e userId src (Suc n) fs d1 acc = (upd, d')"
      by simp
    from Cons.IH[OF this _ Cons.prems(3)] keep show ?thesis by blast
  next
    case (Some r1)
    with u have u': "updateFile e n (file_id f) ?u userId d = (Some r1, d1)" by simp
    have new: "r1 \<in> set (files d1) \<and> file_tags r1 = file_tags src"
      using updateFile_stored[OF u'] updateFile_Some(2)[OF u'] by simp
    from u' Cons.prems(1)
    have "apply_tags_loop e userId src (Suc n) fs d1 (acc @ [r1]) = (upd, d')" by simp
    from Cons.IH[OF this _ Cons.prems(3)] keep new show ?thesis by auto
  qed
qed

text \<open>
  Full replacement of the tags: when apply-to-similar answers with a response,
  every file of \<open>updatedFiles\<close> has exactly the source file's tag list, whatever its tags
  were before, and is a row of the store after the request; the source file has the
  requested identity as a UUID; and the two counts are the lengths of the two lists.
\<close>

lemma apply_to_similar_tags_replaced:
  assumes "apply_to_similar e userId ident d = (Inr resp, d')"
  shows "same_uuid (file_id (sourceFile resp)) ident
       \<and> list_all (\<lambda>f. file_tags f = file_tags (sourceFile resp) \<and> f \<in> set (files d'))
           (updatedFiles resp)
       \<and> count resp = length (updatedFiles resp)
       \<and> similarFilesFound resp
           = length (similarFiles ident (sourceFile resp) (files_of_user userId (files d)))"
proof -
  from assms obtain src where g: "getFile e ident userId d = Some src"
    by (auto simp: apply_to_similar_def split: option.splits)
  from assms g have nf: "\<not> getAllFiles_fails e"
    by (auto simp: apply_to_similar_def getAllFiles_def split: if_splits)
  define similar where "similar = similarFiles ident src (files_of_user userId (files d))"
  obtain upd d1 where loop: "apply_tags_loop e userId src 0 similar d [] = (upd, d1)"
    by (metis surj_pair)
  with assms g nf have resp: "resp = \<lparr> sourceFile = src, updatedFiles = upd,
       count = length upd, similarFilesFound = length similar \<rparr>" and d': "d' = d1"
    by (auto simp: apply_to_similar_def getAllFiles_def similar_def Let_def)
  have "\<forall>r\<in>set upd. r \<in> set (files d1) \<and> file_tags r = file_tags src"
    using apply_tags_loop_stored[OF loop] by simp
  with resp d' getFile_id[OF g] show ?thesis
    by (auto simp: list_all_iff similar_def)
qed

text \<open>
  The filter drops the files whose identity is, as text, the identity of the request; the
  files it keeps, and so the files it updates, have another text as identity.
\<close>

lemma apply_to_similar_excludes_request_text:
  assumes "apply_to_similar e userId ident d = (Inr resp, d')"
  shows "list_all (\<lambda>f. file_id f \<noteq> ident) (updatedFiles resp)"
proof -
  from assms obtain src where g: "getFile e ident userId d = Some src"
    by (auto simp: apply_to_similar_def split: option.splits)
  from assms g have nf: "\<not> getAllFiles_fails e"
    by (auto simp: apply_to_similar_def getAllFiles_def split: if_splits)
  define similar where "similar = similarFiles ident src (files_of_user userId (files d))"
  define upd where "upd = fst (apply_tags_loop e userId src 0 similar d [])"
  from assms g nf have resp: "updatedFiles resp = upd"
    by (auto simp: apply_to_similar_def getAllFiles_def similar_def upd_def Let_def
          split: prod.splits)
  have sim: "\<forall>f\<in>set similar. file_id f \<noteq> ident"
    unfolding similar_def using similarFiles_not_source by blast
  have "set upd \<subseteq> {r. file_tags r = file_tags src \<and> file_id r \<in> file_id ` set similar}"
    unfolding upd_def using apply_tags_loop_updated[of e userId src 0 similar d "[]"] by simp
  with sim have "\<forall>f\<in>set upd. file_id f \<noteq> ident"
    by (metis (mono_tags, lifting) imageE mem_Collect_eq subsetD)
  with resp show ?thesis by (simp add: list_all_iff)
qed

text \<open>
  Claim C1, at an input where it fails. The request names the source file by its UUID in
  upper case. The store finds the file; the filter compares the stored lower-case text
  with the request's text, so it does not drop the source file, which matches itself by
  its MIME type: the source file is the one file found similar and the one file updated.
\<close>

theorem apply_to_similar_updates_source:
  "fst (apply_to_similar offline_env ''user-1'' ''A0EEBC99-9C0B-4EF8-BB6D-6BB9BD380A11'' uuid_db)
     = Inr \<lparr> sourceFile =
               (example_file ''a0eebc99-9c0b-4ef8-bb6d-6bb9bd380a11'' ''report_q1.pdf''
                  ''application/pdf'') \<lparr>file_tags := [''report'']\<rparr>,
             updatedFiles =
               [(example_file ''a0eebc99-9c0b-4ef8-bb6d-6bb9bd380a11'' ''report_q1.pdf''
                   ''application/pdf'') \<lparr>file_tags := [''report'']\<rparr>],
             count = 1,
             similarFilesFound = 1 \<rparr>"
  by code_simp

section \<open>Properties of the auto-organizer\<close>

lemma updateFile_folders: "folders (snd (updateFile e n ident u userId d)) = folders d"
  by (simp add: updateFile_def split: option.splits)

lemma filter_map_frame:
  assumes "\<And>x. x \<in> set xs \<Longrightarrow> P (h x) = P x" and "\<And>x. x \<in> set xs \<Longrightarrow> P x \<Longrightarrow> h x = x"
  shows "filter P (map h xs) = filter P xs"
  using assms by (induction xs) auto

lemma updateFile_other_rows:
  assumes "ident \<noteq> X"
  shows "rows_with_id X (snd (updateFile e n ident u userId d)) = rows_with_id X d"
proof -
  have "filter (\<lambda>r. file_id r = X)
          (map (\<lambda>r. if update_target ident userId r then apply_updates u r else r) (files d))
        = filter (\<lambda>r. file_id r = X) (files d)"
    using assms by (intro filter_map_frame) (auto simp: file_id_apply_updates update_target_def)
  then show ?thesis
    by (simp add: updateFile_def rows_with_id_def split: option.splits)
qed

lemma createFolder_Inr:
  assumes "createFolder e n ins d = Inr (row, d1)"
  shows "files d1 = files d" and "folders d1 = row # folders d"
    and "folder_user_id row = ins_userId ins" and "folder_name row = ins_name ins"
  using assms by (auto simp: createFolder_def Let_def split: if_splits)

lemma rows_with_id_files: "files d1 = files d \<Longrightarrow> rows_with_id X d1 = rows_with_id X d"
  by (simp add: rows_with_id_def)

text \<open>
  What one iteration of the loop can do: nothing, an update of the file, or the creation of
  a folder with a new lowercased name followed by an update of the file.
\<close>

lemma organize_file_cases:
  assumes "organize_file e userId n file (d, c) = Inr (d', c')"
  shows "(d' = d \<and> c' = c \<and> (truthy (folder_id file) \<or> no_suggestion e n file))
       \<or> (\<not> truthy (folder_id file) \<and> \<not> no_suggestion e n file \<and>
          (\<exists>u. d' = snd (updateFile e n (file_id file) u userId d)))
       \<or> (\<not> truthy (folder_id file) \<and> \<not> no_suggestion e n file \<and>
          (\<exists>u row d1. createFolder e n
                 \<lparr> ins_name = the (suggestedFolderName (generateFileTags (gemini e) n
                                     (original_name file) (file_type file))),
                   ins_parentId = None, ins_userId = userId, ins_isAiGenerated = Some True \<rparr> d
                 = Inr (row, d1)
             \<and> toLowerCase (folder_name row) \<notin> set (lower_names (folders_of_user userId (folders d)))
             \<and> d' = snd (updateFile e n (file_id file) u userId d1)))"
proof (cases "truthy (folder_id file)")
  case True
  with assms show ?thesis by (simp add: organize_file_def)
next
  case nf: False
  define t where "t = generateFileTags (gemini e) n (original_name file) (file_type file)"
  show ?thesis
  proof (cases "truthy (suggestedFolderName t)")
    case False
    with assms nf show ?thesis
      by (cases "suggestedFolderName t")
         (auto simp: organize_file_def no_suggestion_def t_def Let_def)
  next
    case True
    then obtain s where s: "suggestedFolderName t = Some s" and ne: "s \<noteq> []"
      by (cases "suggestedFolderName t") auto
    from True have sg: "\<not> no_suggestion e n file" by (simp add: no_suggestion_def t_def)
    from assms nf s ne have ok: "\<not> getAllFolders_fails e n"
      by (auto simp: organize_file_def Let_def t_def[symmetric] getAllFolders_def split: if_splits)
    show ?thesis
    proof (cases "find (\<lambda>folder. toLowerCase (folder_name folder) = toLowerCase s)
                    (folders_of_user userId (folders d))")
      case (Some ex)
      with assms nf s ne ok have "d' = snd (updateFile e n (file_id file)
             \<lparr> set_folderId = Some (folder_ident ex), set_tags = Some (tags t) \<rparr> userId d)"
        by (auto simp: organize_file_def Let_def t_def[symmetric] getAllFolders_def)
      with nf sg show ?thesis by blast
    next
      case None
      then have fresh: "toLowerCase s \<notin> set (lower_names (folders_of_user userId (folders d)))"
        by (auto simp: find_None_iff lower_names_def)
      from assms nf s ne ok None obtain row d1 where
        cf: "createFolder e n \<lparr> ins_name = s, ins_parentId = None, ins_userId = userId,
               ins_isAiGenerated = Some True \<rparr> d = Inr (row, d1)"
        and d': "d' = snd (updateFile e n (file_id file)
             \<lparr> set_folderId = Some (folder_ident row), set_tags = Some (tags t) \<rparr> userId d1)"
        by (auto simp: organize_file_def Let_def t_def[symmetric] getAllFolders_def
              split: sum.splits)
      from createFolder_Inr(4)[OF cf] fresh
      have "toLowerCase (folder_name row) \<notin> set (lower_names (folders_of_user userId (folders d)))"
        by simp
      with nf sg cf d' s show ?thesis unfolding t_def by auto
    qed
  qed
qed

lemma organize_file_folders:
  assumes "organize_file e userId n file (d, c) = Inr (d', c')"
  shows "folders d' = folders d
       \<or> (\<exists>row. folders d' = row # folders d \<and> folder_user_id row = userId
            \<and> toLowerCase (folder_name row)
                 \<notin> set (lower_names (folders_of_user userId (folders d))))"
  using organize_file_cases[OF assms]
proof (elim disjE conjE exE)
  fix u row d1
  assume cf: "createFolder e n
                 \<lparr> ins_name = the (suggestedFolderName (generateFileTags (gemini e) n
                                     (original_name file) (file_type file))),
                   ins_parentId = None, ins_userId = userId, ins_isAiGenerated = Some True \<rparr> d
                 = Inr (row, d1)"
    and fresh: "toLowerCase (folder_name row)
                  \<notin> set (lower_names (folders_of_user userId (folders d)))"
    and d': "d' = snd (updateFile e n (file_id file) u userId d1)"
  from d' createFolder_Inr(2)[OF cf] have "folders d' = row # folders d"
    by (simp add: updateFile_folders)
  moreover from createFolder_Inr(3)[OF cf] have "folder_user_id row = userId" by simp
  ultimately show ?thesis using fresh by blast
qed (simp_all add: updateFile_folders)

lemma organize_file_rows:
  assumes "organize_file e userId n file (d, c) = Inr (d', c')"
      and "file_id file = X \<Longrightarrow> truthy (folder_id file) \<or> no_suggestion e n file"
  shows "rows_with_id X d' = rows_with_id X d"
  using organize_file_cases[OF assms(1)]
proof (elim disjE conjE exE)
  fix u
  assume "\<not> truthy (folder_id file)" "\<not> no_suggestion e n file"
    and d': "d' = snd (updateFile e n (file_id file) u userId d)"
  with assms(2) have "file_id file \<noteq> X" by blast
  with d' show ?thesis by (simp add: updateFile_other_rows)
next
  fix u row d1
  assume "\<not> truthy (folder_id file)" "\<not> no_suggestion e n file"
    and cf: "createFolder e n
                 \<lparr> ins_name = the (suggestedFolderName (generateFileTags (gemini e) n
                                     (original_name file) (file_type file))),
                   ins_parentId = None, ins_userId = userId, ins_isAiGenerated = Some True \<rparr> d
                 = Inr (row, d1)"
    and d': "d' = snd (updateFile e n (file_id file) u userId d1)"
  with assms(2) have "file_id file \<noteq> X" by blast
  with d' have "rows_with_id X d' = rows_with_id X d1" by (simp add: updateFile_other_rows)
  also have "\<dots> = rows_with_id X d" using createFolder_Inr(1)[OF cf] by (rule rows_with_id_files)
  finally show ?thesis .
qed simp_all

lemma folders_of_user_Cons:
  "folder_user_id row = userId \<Longrightarrow>
     folders_of_user userId (row # rows) = row # folders_of_user userId rows"
  by (simp add: folders_of_user_def)

lemma organize_loop_folders:
  "organize_loop e userId n fs (d, c) = ((d', c'), err) \<Longrightarrow>
     \<exists>new. folders d' = new @ folders d \<and> distinct (lower_names new)
        \<and> (\<forall>r\<in>set new. folder_user_id r = userId
              \<and> toLowerCase (folder_name r)
                   \<notin> set (lower_names (folders_of_user userId (folders d))))"
proof (induction fs arbitrary: n d c)
  case Nil
  then show ?case by (simp add: lower_names_def)
next
  case (Cons f fs)
  show ?case
  proof (cases "organize_file e userId n f (d, c)")
    case (Inl er)
    with Cons.prems show ?thesis by (simp add: lower_names_def)
  next
    case (Inr s1)
    obtain d1 c1 where s1: "s1 = (d1, c1)" by (cases s1)
    with Inr have step: "organize_file e userId n f (d, c) = Inr (d1, c1)" by simp
    with Cons.prems have "organize_loop e userId (Suc n) fs (d1, c1) = ((d', c'), err)" by simp
    from Cons.IH[OF this] obtain new where
      n1: "folders d' = new @ folders d1" and n2: "distinct (lower_names new)"
      and n3: "\<forall>r\<in>set new. folder_user_id r = userId
              \<and> toLowerCase (folder_name r)
                   \<notin> set (lower_names (folders_of_user userId (folders d1)))"
      by blast
    from organize_file_folders[OF step] show ?thesis
    proof
      assume "folders d1 = folders d"
      with n1 n2 n3 show ?thesis by auto
    next
      assume "\<exists>row. folders d1 = row # folders d \<and> folder_user_id row = userId
            \<and> toLowerCase (folder_name row)
                 \<notin> set (lower_names (folders_of_user userId (folders d)))"
      then obtain row where r1: "folders d1 = row # folders d"
        and r2: "folder_user_id row = userId"
        and r3: "toLowerCase (folder_name row)
                 \<notin> set (lower_names (folders_of_user userId (folders d)))"
        by blast
      have fu: "folders_of_user userId (folders d1) = row # folders_of_user userId (folders d)"
        using r1 r2 by (simp add: folders_of_user_Cons)
      have a: "folders d' = (new @ [row]) @ folders d" using n1 r1 by simp
      have b: "distinct (lower_names (new @ [row]))"
        using n2 n3 fu by (auto simp: lower_names_def)
      have c: "\<forall>r\<in>set (new @ [row]). folder_user_id r = userId
              \<and> toLowerCase (folder_name r)
                   \<notin> set (lower_names (folders_of_user userId (folders d)))"
        using n3 fu r2 r3 by (auto simp: lower_names_def)
      from a b c show ?thesis by blast
    qed
  qed
qed

lemma organize_loop_rows:
  "organize_loop e userId n fs (d, c) = ((d', c'), err) \<Longrightarrow>
   (\<And>k. k < length fs \<Longrightarrow> file_id (fs ! k) = X \<Longrightarrow>
          truthy (folder_id (fs ! k)) \<or> no_suggestion e (n + k) (fs ! k)) \<Longrightarrow>
   rows_with_id X d' = rows_with_id X d"
proof (induction fs arbitrary: n d c)
  case Nil
  then show ?case by simp
next
  case (Cons f fs)
  show ?case
  proof (cases "organize_file e userId n f (d, c)")
    case (Inl er)
    with Cons.prems(1) show ?thesis by simp
  next
    case (Inr s1)
    obtain d1 c1 where s1: "s1 = (d1, c1)" by (cases s1)
    with Inr have step: "organize_file e userId n f (d, c) = Inr (d1, c1)" by simp
    with Cons.prems(1) have rest: "organize_loop e userId (Suc n) fs (d1, c1) = ((d', c'), err)"
      by simp
    have "file_id f = X \<Longrightarrow> truthy (folder_id f) \<or> no_suggestion e n f"
      using Cons.prems(2)[of 0] by simp
    with step have r0: "rows_with_id X d1 = rows_with_id X d" by (rule organize_file_rows)
    have "\<And>k. k < length fs \<Longrightarrow> file_id (fs ! k) = X \<Longrightarrow>
          truthy (folder_id (fs ! k)) \<or> no_suggestion e (Suc n + k) (fs ! k)"
      using Cons.prems(2)[of "Suc k" for k] by simp
    with rest have "rows_with_id X d' = rows_with_id X d1" by (rule Cons.IH)
    with r0 show ?thesis by simp
  qed
qed


lemma created_folders_append: "folders d' = new @ folders d \<Longrightarrow> created_folders d d' = new"
  by (simp add: created_folders_def)

text \<open>
  Claim C4. In one run of organize-files, however it ends, the folders the run created
  have pairwise different lowercased names, each is owned by the requesting user, and
  none has the lowercased name of a folder that user already had: each creation is
  preceded by a case-insensitive lookup among the user's folders, which include the ones
  created earlier in the run.
\<close>

theorem organize_no_duplicate_folders:
  assumes "organize_files e userId d = (out, d')"
  shows "folders d' = created_folders d d' @ folders d
       \<and> distinct (lower_names (created_folders d d'))
       \<and> list_all (\<lambda>r. folder_user_id r = userId
                        \<and> toLowerCase (folder_name r)
                             \<notin> set (lower_names (folders_of_user userId (folders d))))
           (created_folders d d')"
proof (cases "getAllFiles e userId d")
  case (Inl er)
  with assms have "d' = d" by (simp add: organize_files_def)
  then show ?thesis by (simp add: created_folders_def lower_names_def)
next
  case (Inr fs)
  obtain d1 c1 err where
    loop: "organize_loop e userId 0 fs (d, \<lparr> created = 0, moved = 0 \<rparr>) = ((d1, c1), err)"
    by (metis surj_pair)
  with assms Inr have "d' = d1"
    by (cases err) (auto simp: organize_files_def)
  with organize_loop_folders[OF loop] obtain new where
    n1: "folders d' = new @ folders d" and n2: "distinct (lower_names new)"
    and n3: "\<forall>r\<in>set new. folder_user_id r = userId
              \<and> toLowerCase (folder_name r)
                   \<notin> set (lower_names (folders_of_user userId (folders d)))"
    by blast
  from created_folders_append[OF n1] n1 n2 n3 show ?thesis
    by (simp add: list_all_iff)
qed

text \<open>
  An instance: the endpoint suggests \<open>Invoices\<close>, \<open>INVOICES\<close> and \<open>Photos\<close>; two folders
  are created.
\<close>

theorem organize_no_duplicate_folders_witness:
  "lower_names (created_folders example_db (snd (organize_files scripted_env ''user-1'' example_db)))
     = [''photos'', ''invoices'']
   \<and> distinct (lower_names (created_folders example_db
                  (snd (organize_files scripted_env ''user-1'' example_db))))"
proof -
  have v: "lower_names (created_folders example_db
             (snd (organize_files scripted_env ''user-1'' example_db)))
           = [''photos'', ''invoices'']"
    by code_simp
  have "organize_files scripted_env ''user-1'' example_db
          = (fst (organize_files scripted_env ''user-1'' example_db),
             snd (organize_files scripted_env ''user-1'' example_db))"
    by simp
  from organize_no_duplicate_folders[OF this] v show ?thesis by simp
qed

lemma distinct_map_filter_single:
  "distinct (map f xs) \<Longrightarrow> x \<in> set xs \<Longrightarrow> filter (\<lambda>r. f r = f x) xs = [x]"
proof (induction xs)
  case Nil
  then show ?case by simp
next
  case (Cons y ys)
  show ?case
  proof (cases "x = y")
    case True
    with Cons.prems(1) have "f x \<notin> f ` set ys" by simp
    then have "filter (\<lambda>r. f r = f x) ys = []"
      by (auto simp: filter_empty_conv image_iff)
    with True show ?thesis by simp
  next
    case False
    with Cons.prems have "x \<in> set ys" and "f y \<noteq> f x" by auto
    with Cons show ?thesis by simp
  qed
qed

text \<open>
  Claim C7. Let the identities of the stored files be distinct (the primary key). A file
  of the list that organize-files iterates over that has no folder and whose tagging
  result has no suggested folder name is, after the run, still stored exactly as it was:
  the row with its identity is the original row, field for field.
\<close>

theorem organize_keeps_unsuggested_file:
  assumes "distinct (map file_id (files d))"
      and "getAllFiles e userId d = Inr fs"
      and "i < length fs"
      and "\<not> truthy (folder_id (fs ! i))"
      and "no_suggestion e i (fs ! i)"
      and "organize_files e userId d = (out, d')"
  shows "rows_with_id (file_id (fs ! i)) d' = [fs ! i]"
proof -
  from assms(2) have fs: "fs = files_of_user userId (files d)"
    by (simp add: getAllFiles_def split: if_splits)
  then have sub: "set fs \<subseteq> set (files d)" by (auto simp: files_of_user_def)
  from fs assms(1) have dist: "distinct (map file_id fs)"
    by (simp add: files_of_user_def distinct_map_filter)
  from sub assms(3) have "fs ! i \<in> set (files d)" by auto
  with assms(1) have before: "rows_with_id (file_id (fs ! i)) d = [fs ! i]"
    unfolding rows_with_id_def by (rule distinct_map_filter_single)
  obtain d1 c1 err where
    loop: "organize_loop e userId 0 fs (d, \<lparr> created = 0, moved = 0 \<rparr>) = ((d1, c1), err)"
    by (metis surj_pair)
  with assms(2,6) have d': "d' = d1"
    by (cases err) (auto simp: organize_files_def)
  have only: "truthy (folder_id (fs ! k)) \<or> no_suggestion e (0 + k) (fs ! k)"
    if "k < length fs" and "file_id (fs ! k) = file_id (fs ! i)" for k
  proof -
    from that assms(3) have "map file_id fs ! k = map file_id fs ! i" by simp
    moreover from that(1) assms(3)
    have "k < length (map file_id fs)" and "i < length (map file_id fs)" by simp_all
    ultimately have "k = i" using dist nth_eq_iff_index_eq by blast
    with assms(5) show ?thesis by simp
  qed
  from organize_loop_rows[OF loop only] d' before show ?thesis by simp
qed

theorem organize_keeps_unsuggested_file_witness:
  "distinct (map file_id (files example_db))
   \<and> files example_db ! 3 = example_file ''4'' ''data.bin'' ''application/octet-stream''
   \<and> no_suggestion offline_env 3 (files example_db ! 3)
   \<and> rows_with_id ''4'' (snd (organize_files offline_env ''user-1'' example_db))
       = [example_file ''4'' ''data.bin'' ''application/octet-stream'']"
proof -
  have h1: "distinct (map file_id (files example_db))" by code_simp
  have h2: "getAllFiles offline_env ''user-1'' example_db = Inr (files example_db)" by code_simp
  have h3: "3 < length (files example_db)" by code_simp
  have h4: "\<not> truthy (folder_id (files example_db ! 3))" by code_simp
  have h5: "no_suggestion offline_env 3 (files example_db ! 3)" by code_simp
  have h6: "organize_files offline_env ''user-1'' example_db
          = (fst (organize_files offline_env ''user-1'' example_db),
             snd (organize_files offline_env ''user-1'' example_db))"
    by simp
  have v: "files example_db ! 3 = example_file ''4'' ''data.bin'' ''application/octet-stream''"
    by code_simp
  have w: "file_id (example_file ''4'' ''data.bin'' ''application/octet-stream'') = ''4''"
    by (simp add: example_file_def)
  from organize_keeps_unsuggested_file[OF h1 h2 h3 h4 h5 h6] h1 h5 v w show ?thesis by simp
qed

subsection \<open>Failures during a run\<close>

text \<open>
  A failing tagging call or a failing update never ends the loop: only listing or
  creating folders can.
\<close>

lemma organize_file_no_throw:
  "\<not> getAllFolders_fails e n \<Longrightarrow> \<not> createFolder_fails e n \<Longrightarrow>
     \<exists>s'. organize_file e userId n file s = Inr s'"
  by (auto simp: organize_file_def Let_def getAllFolders_def createFolder_def
        split: option.splits)

lemma organize_loop_completes:
  "(\<And>k. \<not> getAllFolders_fails e k \<and> \<not> createFolder_fails e k) \<Longrightarrow>
     snd (organize_loop e userId n fs s) = None"
proof (induction fs arbitrary: n s)
  case Nil
  then show ?case by simp
next
  case (Cons f fs)
  from Cons.prems obtain s' where "organize_file e userId n f s = Inr s'"
    using organize_file_no_throw[of e n userId f s] by blast
  with Cons show ?case by simp
qed

text \<open>
  Claim C3, at inputs where it fails. First: one unfoldered PDF, the endpoint down and the
  update of the file failing; the report counts one file moved, although no file was
  changed and the file still has no folder. Second: four unfoldered files, the endpoint
  down and the creation of the folder for the first file failing; the run ends there with
  an error and no report, and none of the other files is processed.
\<close>

theorem organize_counts_failed_move:
  "fst (organize_files update_failing_env ''user-1'' notes_db)
     = Inr \<lparr> foldersCreated = 1, filesMoved = 1 \<rparr>
   \<and> files (snd (organize_files update_failing_env ''user-1'' notes_db)) = files notes_db
   \<and> map folder_id (files (snd (organize_files update_failing_env ''user-1'' notes_db)))
       = [None]
   \<and> organize_files create_failing_env ''user-1'' example_db = (Inl ServerError, example_db)"
  by code_simp

end
